theory Spec2Isabelle
  imports Main "HOL-Library.AList"
begin

section \<open>The resumable downloader of ZenodoDataDownload.py\<close>

text \<open>
  A shallow embedding of \<^verbatim>\<open>download_file\<close> and of the pass loop of \<^verbatim>\<open>main\<close>.
  The file system is a map from paths to file contents, carried in the state together
  with the list of calls the program has made to the outside (requests, opens, removals,
  sleeps). What the outside answers is an oracle, \<open>env\<close>: the reply of the server to
  the n-th request, and the fault of the disk during the n-th attempt. Python integers
  are \<open>int\<close>, byte strings are \<open>char list\<close>, and a string (a name, an address, a
  path, the keyword) is the \<open>char list\<close> of the bytes of its UTF-8 encoding, in which
  no character starts inside another, so that \<^verbatim>\<open>in\<close> on two strings is
  \<open>contains\<close> on their encodings. The \<^verbatim>\<open>headers\<close>
  dictionary is an association list. Console output is not modelled; what \<^verbatim>\<open>main\<close>
  reports when its loop ends is the value the loop returns. \<^verbatim>\<open>os.remove\<close> and
  \<^verbatim>\<open>os.path.getsize\<close> of a file that exists are taken to succeed, nothing but the
  program changes the files, and an interrupt that is not an \<^verbatim>\<open>Exception\<close> is left
  out.
\<close>

subsection \<open>Data\<close>

type_synonym bytes = "char list"

type_synonym headers = "(string \<times> string) list"

datatype open_mode = AB | WB

datatype event =
    Get string headers
  | Tqdm int int
  | Open string open_mode
  | Remove string
  | Sleep nat

text \<open>
  The \<^verbatim>\<open>content-length\<close> header of a response: missing, a text that \<^verbatim>\<open>int()\<close>
  parses, or a text on which \<^verbatim>\<open>int()\<close> raises \<^verbatim>\<open>ValueError\<close>.
\<close>

datatype header_value = Absent | Parses int | Unparseable

text \<open>
  \<^verbatim>\<open>iter_content\<close> yields the chunks of the body and then either stops or raises
  (a connection that breaks in the middle of the stream).
\<close>

datatype stream_end = Exhausted | Interrupted

datatype reply =
    NoResponse
  | Response int header_value "bytes list" stream_end

text \<open>
  The disk during one attempt: \<open>OpenFails\<close> makes \<^verbatim>\<open>open\<close> raise, \<open>WriteFails k\<close>
  lets \<open>k\<close> calls of \<^verbatim>\<open>f.write\<close> through and makes the next one raise.
\<close>

datatype io_fault = NoFault | OpenFails | WriteFails nat

text \<open>
  \<open>tqdm_cm\<close> says whether the \<^verbatim>\<open>tqdm\<close> object is a context manager: the class
  of the tqdm package is, the replacement class of lines 12 to 27 has no
  \<^verbatim>\<open>__enter__\<close>, so the \<^verbatim>\<open>with\<close> statement of line 111 raises on it.
  \<open>str_lower\<close> is \<^verbatim>\<open>str.lower\<close> of the Python library, which folds the capitals
  of every script by the tables of Unicode: the program takes it as it is, and so does
  the model, which assumes nothing of it.
\<close>

record env =
  server :: "nat \<Rightarrow> string \<Rightarrow> headers \<Rightarrow> reply"
  disk :: "nat \<Rightarrow> io_fault"
  tqdm_cm :: bool
  str_lower :: "string \<Rightarrow> string"

record world =
  files :: "string \<rightharpoonup> bytes"
  trace :: "event list"

datatype exn =
    RequestException
  | HTTPError
  | ValueError
  | TypeError
  | OSError
  | SizeMismatch

record dl_state =
  initial_pos :: int
  mode :: open_mode
  headers :: headers

record file_info =
  key :: "string option"
  filename :: "string option"
  link_self :: "string option"
  link_content :: "string option"
  size :: "int option"

datatype verdict = NoMatchingFiles | AllDownloaded int

subsection \<open>Strings and paths\<close>

definition digit :: "nat \<Rightarrow> char" where
  "digit d = char_of (48 + d)"

fun digits :: "nat \<Rightarrow> string" where
  "digits n = (if n < 10 then [digit n] else digits (n div 10) @ [digit (n mod 10)])"

declare digits.simps [simp del]

text \<open>Python's \<^verbatim>\<open>str\<close> of an integer, as the f-string of lines 87 and 134 formats it.\<close>

definition str_int :: "int \<Rightarrow> string" where
  "str_int i = (if i < 0 then CHR ''-'' # digits (nat (- i)) else digits (nat i))"

definition range_value :: "int \<Rightarrow> string" where
  "range_value pos = ''bytes='' @ str_int pos @ ''-''"

text \<open>\<^verbatim>\<open>os.path.join\<close> of two components, on POSIX.\<close>

definition path_join :: "string \<Rightarrow> string \<Rightarrow> string" where
  "path_join a b =
     (case b of
        c # _ \<Rightarrow>
          if c = CHR ''/'' then b
          else if a = [] \<or> last a = CHR ''/'' then a @ b
          else a @ ''/'' @ b
      | [] \<Rightarrow> if a = [] \<or> last a = CHR ''/'' then a @ b else a @ ''/'' @ b)"

fun starts_with :: "string \<Rightarrow> string \<Rightarrow> bool" where
  "starts_with [] ys = True"
| "starts_with (x # xs) [] = False"
| "starts_with (x # xs) (y # ys) = (x = y \<and> starts_with xs ys)"

text \<open>\<^verbatim>\<open>needle in hay\<close> on strings.\<close>

fun contains :: "string \<Rightarrow> string \<Rightarrow> bool" where
  "contains needle [] = (needle = [])"
| "contains needle (y # ys) = (starts_with needle (y # ys) \<or> contains needle ys)"

text \<open>\<^verbatim>\<open>a or b\<close> on values that are a string or \<^verbatim>\<open>None\<close>.\<close>

definition str_or :: "string option \<Rightarrow> string option \<Rightarrow> string option" where
  "str_or a b = (case a of Some s \<Rightarrow> if s \<noteq> [] then Some s else b | None \<Rightarrow> b)"

text \<open>Truth value of an integer or \<^verbatim>\<open>None\<close>: \<^verbatim>\<open>None\<close> and \<^verbatim>\<open>0\<close> are false.\<close>

definition truthy :: "int option \<Rightarrow> bool" where
  "truthy v = (case v of None \<Rightarrow> False | Some n \<Rightarrow> n \<noteq> 0)"

subsection \<open>The outside world\<close>

definition log :: "event \<Rightarrow> world \<Rightarrow> world" where
  "log e w = w\<lparr>trace := trace w @ [e]\<rparr>"

fun is_get :: "event \<Rightarrow> bool" where
  "is_get (Get u h) = True"
| "is_get e = False"

definition requests_made :: "world \<Rightarrow> nat" where
  "requests_made w = length (filter is_get (trace w))"

text \<open>\<^verbatim>\<open>os.path.getsize\<close> of a file that exists.\<close>

definition getsize :: "bytes \<Rightarrow> int" where
  "getsize c = int (length c)"

subsection \<open>One attempt: lines 92 to 123\<close>

text \<open>
  The loop of lines 113 to 116 over the chunks of the body, writing to a file whose
  content so far is \<open>acc\<close>. \<open>k\<close> counts the writes the disk still lets through
  (\<open>None\<close>: all of them). An empty chunk is skipped. The result is the exception
  raised, if any, and the content of the file when it is closed.
\<close>

fun write_chunks :: "nat option \<Rightarrow> bytes list \<Rightarrow> bytes \<Rightarrow> exn option \<times> bytes" where
  "write_chunks k [] acc = (None, acc)"
| "write_chunks k (c # cs) acc =
     (if c = [] then write_chunks k cs acc
      else case k of
        None \<Rightarrow> write_chunks None cs (acc @ c)
      | Some 0 \<Rightarrow> (Some OSError, acc)
      | Some (Suc n) \<Rightarrow> write_chunks (Some n) cs (acc @ c))"

text \<open>Line 96: \<^verbatim>\<open>int(r.headers.get('content-length', 0))\<close>.\<close>

definition content_length :: "header_value \<Rightarrow> exn + int" where
  "content_length h =
     (case h of Absent \<Rightarrow> Inr 0 | Parses v \<Rightarrow> Inr v | Unparseable \<Rightarrow> Inl ValueError)"

text \<open>Lines 97 to 108: the total for the progress bar, the position and the mode.\<close>

definition on_status :: "int \<Rightarrow> int \<Rightarrow> dl_state \<Rightarrow> int \<times> dl_state" where
  "on_status status_code total_size st =
     (if initial_pos st > 0 then
        if status_code = 206 then (total_size + initial_pos st, st)
        else if status_code = 200 then (total_size, st\<lparr>initial_pos := 0, mode := WB\<rparr>)
        else (total_size, st)
      else (total_size, st))"

text \<open>The writes a fault of the disk lets through, for \<open>write_chunks\<close>.\<close>

definition writes_allowed :: "io_fault \<Rightarrow> nat option" where
  "writes_allowed fault = (case fault of WriteFails j \<Rightarrow> Some j | _ \<Rightarrow> None)"

text \<open>
  Lines 111 to 116, once the response is there: the progress bar, \<^verbatim>\<open>open\<close> in the
  mode decided (\<^verbatim>\<open>'wb'\<close> empties the file, \<^verbatim>\<open>'ab'\<close> keeps what it holds), the
  chunks written, the stream ending. The file holds what was written also when the
  block is left by an exception.
\<close>

definition receive ::
  "env \<Rightarrow> nat \<Rightarrow> string \<Rightarrow> int \<Rightarrow> dl_state \<Rightarrow> bytes list \<Rightarrow> stream_end \<Rightarrow> world
     \<Rightarrow> (exn + unit) \<times> world" where
  "receive e n filepath total_size st body fin w =
     (if \<not> tqdm_cm e then (Inl TypeError, w)
      else
        let w1 = log (Tqdm total_size (initial_pos st)) w;
            w2 = log (Open filepath (mode st)) w1
        in if disk e n = OpenFails then (Inl OSError, w2)
           else
             let old = (case mode st of
                          WB \<Rightarrow> []
                        | AB \<Rightarrow> (case files w filepath of None \<Rightarrow> [] | Some c \<Rightarrow> c));
                 (err, content) = write_chunks (writes_allowed (disk e n)) body old;
                 w3 = w2\<lparr>files := (files w2)(filepath \<mapsto> content)\<rparr>
             in (case err of
                   Some x \<Rightarrow> (Inl x, w3)
                 | None \<Rightarrow>
                     (case fin of
                        Interrupted \<Rightarrow> (Inl RequestException, w3)
                      | Exhausted \<Rightarrow> (Inr (), w3))))"

text \<open>Lines 92 to 116: the request, \<^verbatim>\<open>raise_for_status\<close>, the header, the transfer.\<close>

definition transfer ::
  "env \<Rightarrow> string \<Rightarrow> string \<Rightarrow> dl_state \<Rightarrow> world \<Rightarrow> (exn + unit) \<times> world" where
  "transfer e url filepath st w =
     (let n = requests_made w;
          w1 = log (Get url (headers st)) w
      in case server e n url (headers st) of
           NoResponse \<Rightarrow> (Inl RequestException, w1)
         | Response status_code clen body fin \<Rightarrow>
             if 400 \<le> status_code \<and> status_code < 600 then (Inl HTTPError, w1)
             else
               (case content_length clen of
                  Inl x \<Rightarrow> (Inl x, w1)
                | Inr total_size \<Rightarrow>
                    (case on_status status_code total_size st of
                       (total_size', st') \<Rightarrow> receive e n filepath total_size' st' body fin w1)))"

text \<open>Lines 118 to 123: the size of the file against the expected size.\<close>

definition verify :: "string \<Rightarrow> int option \<Rightarrow> world \<Rightarrow> (exn + unit) \<times> world" where
  "verify filepath expected_size w =
     (if truthy expected_size then
        case files w filepath of
          None \<Rightarrow> (Inl OSError, w)
        | Some c \<Rightarrow>
            if Some (getsize c) \<noteq> expected_size then (Inl SizeMismatch, w)
            else (Inr (), w)
      else (Inr (), w))"

definition attempt ::
  "env \<Rightarrow> string \<Rightarrow> string \<Rightarrow> int option \<Rightarrow> dl_state \<Rightarrow> world \<Rightarrow> (exn + unit) \<times> world" where
  "attempt e url filepath expected_size st w =
     (case transfer e url filepath st w of
        (Inl x, w') \<Rightarrow> (Inl x, w')
      | (Inr u, w') \<Rightarrow> verify filepath expected_size w')"

subsection \<open>The retry loop: lines 89 to 142\<close>

text \<open>Lines 126 to 139, the handler: the sleep, then the state of the next attempt.\<close>

definition on_error :: "string \<Rightarrow> dl_state \<Rightarrow> world \<Rightarrow> dl_state" where
  "on_error filepath st w =
     (case files w filepath of
        Some c \<Rightarrow>
          \<lparr>initial_pos = getsize c, mode = AB,
           headers = AList.update ''Range'' (range_value (getsize c)) (headers st)\<rparr>
      | None \<Rightarrow> \<lparr>initial_pos = 0, mode = WB, headers = []\<rparr>)"

function download_loop ::
  "env \<Rightarrow> string \<Rightarrow> string \<Rightarrow> int option \<Rightarrow> int \<Rightarrow> int \<Rightarrow> dl_state \<Rightarrow> world
     \<Rightarrow> bool \<times> world" where
  "download_loop e url filepath expected_size max_retries retry_count st w =
     (if retry_count < max_retries then
        case attempt e url filepath expected_size st w of
          (Inr u, w') \<Rightarrow> (True, w')
        | (Inl x, w') \<Rightarrow>
            download_loop e url filepath expected_size max_retries (retry_count + 1)
              (on_error filepath st (log (Sleep 5) w')) (log (Sleep 5) w')
      else (False, w))"
  by pat_completeness auto
termination
  by (relation "measure (\<lambda>(e, url, filepath, expected_size, max_retries, retry_count, st, w).
        nat (max_retries - retry_count))") auto

declare download_loop.simps [simp del]

subsection \<open>\<^verbatim>\<open>download_file\<close>: lines 64 to 142\<close>

text \<open>Lines 84 to 87.\<close>

definition start_state :: "int \<Rightarrow> dl_state" where
  "start_state pos =
     \<lparr>initial_pos = pos,
      mode = (if pos > 0 then AB else WB),
      headers = (if pos > 0 then AList.update ''Range'' (range_value pos) [] else [])\<rparr>"

definition download_file ::
  "env \<Rightarrow> string \<Rightarrow> string \<Rightarrow> string \<Rightarrow> int option \<Rightarrow> int \<Rightarrow> world \<Rightarrow> bool \<times> world" where
  "download_file e url fname output_dir expected_size max_retries w =
     (let filepath = path_join output_dir fname
      in case files w filepath of
           Some c \<Rightarrow>
             if truthy expected_size \<and> Some (getsize c) = expected_size then (True, w)
             else if truthy expected_size \<and> getsize c > the expected_size then
               download_loop e url filepath expected_size max_retries 0 (start_state 0)
                 ((log (Remove filepath) w)\<lparr>files := (files w)(filepath := None)\<rparr>)
             else
               download_loop e url filepath expected_size max_retries 0
                 (start_state (getsize c)) w
         | None \<Rightarrow>
             download_loop e url filepath expected_size max_retries 0 (start_state 0) w)"

subsection \<open>The passes of \<^verbatim>\<open>main\<close>: lines 176 to 229\<close>

text \<open>Lines 189 and 190: the name and the address of an entry of the manifest.\<close>

definition entry_name :: "file_info \<Rightarrow> string option" where
  "entry_name file_info = str_or (key file_info) (filename file_info)"

definition entry_url :: "file_info \<Rightarrow> string option" where
  "entry_url file_info = str_or (link_self file_info) (link_content file_info)"

text \<open>
  The body of the loop over the files, lines 189 to 215, on the two variables of the
  pass and the world.
\<close>

definition process_entry ::
  "env \<Rightarrow> string \<Rightarrow> string \<Rightarrow> file_info \<Rightarrow> bool \<times> int \<times> world \<Rightarrow> bool \<times> int \<times> world" where
  "process_entry e filter_keyword output_dir file_info s =
     (case s of (all_downloaded, files_to_download_count, w) \<Rightarrow>
        (case (entry_name file_info, entry_url file_info) of
           (Some fname, Some download_url) \<Rightarrow>
             if fname = [] \<or> download_url = [] then s
             else if filter_keyword \<noteq> [] \<and> \<not> contains (str_lower e filter_keyword) (str_lower e fname)
             then s
             else
               let completed =
                     (case files w (path_join output_dir fname) of
                        Some c \<Rightarrow> truthy (size file_info) \<and> Some (getsize c) = size file_info
                      | None \<Rightarrow> False)
               in if completed then (all_downloaded, files_to_download_count + 1, w)
                  else
                    (case download_file e download_url fname output_dir (size file_info) 5 w of
                       (success, w') \<Rightarrow>
                         (if success then all_downloaded else False,
                          files_to_download_count + 1, w'))
         | _ \<Rightarrow> s))"

text \<open>One pass, lines 178 to 215.\<close>

definition run_pass ::
  "env \<Rightarrow> string \<Rightarrow> string \<Rightarrow> file_info list \<Rightarrow> world \<Rightarrow> bool \<times> int \<times> world" where
  "run_pass e filter_keyword output_dir fs w =
     fold (process_entry e filter_keyword output_dir) fs (True, 0, w)"

text \<open>
  The \<^verbatim>\<open>while True\<close> of line 177 can run forever, so the loop takes the number of
  passes it may still start and returns \<open>None\<close> when it would start one more.
\<close>

fun main_loop ::
  "nat \<Rightarrow> env \<Rightarrow> string \<Rightarrow> string \<Rightarrow> file_info list \<Rightarrow> int \<Rightarrow> world
     \<Rightarrow> (verdict \<times> int \<times> world) option" where
  "main_loop 0 e filter_keyword output_dir fs global_pass w = None"
| "main_loop (Suc fuel) e filter_keyword output_dir fs global_pass w =
     (case run_pass e filter_keyword output_dir fs w of
        (all_downloaded, files_to_download_count, w') \<Rightarrow>
          if files_to_download_count = 0 then Some (NoMatchingFiles, global_pass, w')
          else if all_downloaded then
            Some (AllDownloaded files_to_download_count, global_pass, w')
          else
            main_loop fuel e filter_keyword output_dir fs (global_pass + 1)
              (log (Sleep 10) w'))"

subsection \<open>Notions the properties are stated with\<close>

text \<open>
  An entry the pass counts (lines 193 to 201): it has a name and an address, and its
  name passes the filter.
\<close>

definition selected :: "env \<Rightarrow> string \<Rightarrow> file_info \<Rightarrow> bool" where
  "selected e filter_keyword file_info =
     (case (entry_name file_info, entry_url file_info) of
        (Some fname, Some download_url) \<Rightarrow>
          fname \<noteq> [] \<and> download_url \<noteq> [] \<and>
          (filter_keyword = [] \<or> contains (str_lower e filter_keyword) (str_lower e fname))
      | _ \<Rightarrow> False)"

text \<open>The quick check of lines 204 to 209 on an entry that has a name.\<close>

definition completed :: "string \<Rightarrow> file_info \<Rightarrow> world \<Rightarrow> bool" where
  "completed output_dir file_info w =
     (case entry_name file_info of
        Some fname \<Rightarrow>
          (case files w (path_join output_dir fname) of
             Some c \<Rightarrow> truthy (size file_info) \<and> Some (getsize c) = size file_info
           | None \<Rightarrow> False)
      | None \<Rightarrow> False)"

text \<open>
  The entries of a pass on which \<^verbatim>\<open>download_file\<close> returned \<^verbatim>\<open>False\<close>: the
  body of the loop, run with the flag set, clears it on exactly these.
\<close>

fun failures :: "env \<Rightarrow> string \<Rightarrow> string \<Rightarrow> file_info list \<Rightarrow> world \<Rightarrow> file_info list" where
  "failures e filter_keyword output_dir [] w = []"
| "failures e filter_keyword output_dir (file_info # fs) w =
     (case process_entry e filter_keyword output_dir file_info (True, 0, w) of
        (ok, n, w') \<Rightarrow>
          (if ok then [] else [file_info]) @ failures e filter_keyword output_dir fs w')"

subsection \<open>Scenarios\<close>

text \<open>
  The servers, worlds and manifest entries on which the properties below are tried, after
  the scenarios of the specification: a server that never answers, one that honours the
  range and sends the two missing bytes, one that ignores the range and sends the whole
  file with status 200, and one that sends four bytes with status 200 and answers every
  later request with 416.
\<close>

text \<open>The names of the scenarios are ASCII text, on which \<^verbatim>\<open>str.lower\<close> is this.\<close>

definition lower_char :: "char \<Rightarrow> char" where
  "lower_char c =
     (let n = (of_char c :: nat) in if 65 \<le> n \<and> n \<le> 90 then char_of (n + 32) else c)"

definition ascii_lower :: "string \<Rightarrow> string" where
  "ascii_lower s = map lower_char s"

definition offline :: env where
  "offline = \<lparr>server = (\<lambda>n url h. NoResponse), disk = (\<lambda>n. NoFault), tqdm_cm = True,
      str_lower = ascii_lower\<rparr>"

definition resuming :: env where
  "resuming =
     \<lparr>server = (\<lambda>n url h. Response 206 (Parses 2) [''cd''] Exhausted),
      disk = (\<lambda>n. NoFault), tqdm_cm = True,
      str_lower = ascii_lower\<rparr>"

definition restarting :: env where
  "restarting =
     \<lparr>server = (\<lambda>n url h. Response 200 (Parses 4) [''wx'', ''yz''] Exhausted),
      disk = (\<lambda>n. NoFault), tqdm_cm = True,
      str_lower = ascii_lower\<rparr>"

definition oversending :: env where
  "oversending =
     \<lparr>server = (\<lambda>n url h.
        if n = 0 then Response 200 (Parses 4) [''abcd''] Exhausted
        else Response 416 Absent [] Exhausted),
      disk = (\<lambda>n. NoFault), tqdm_cm = True,
      str_lower = ascii_lower\<rparr>"

definition no_files :: world where
  "no_files = \<lparr>files = Map.empty, trace = []\<rparr>"

definition partial_c :: world where
  "partial_c = \<lparr>files = [''out/c.bin'' \<mapsto> ''ab''], trace = []\<rparr>"

definition complete_b :: world where
  "complete_b = \<lparr>files = [''out/b.bin'' \<mapsto> ''abcd''], trace = []\<rparr>"

definition empty_e :: world where
  "empty_e = \<lparr>files = [''out/e.bin'' \<mapsto> []], trace = []\<rparr>"

definition oversize_a :: world where
  "oversize_a = \<lparr>files = [''out/a.bin'' \<mapsto> ''abcd''], trace = []\<rparr>"

definition entry :: "string \<Rightarrow> int option \<Rightarrow> file_info" where
  "entry nm sz =
     \<lparr>key = Some nm, filename = None, link_self = Some (''u/'' @ nm), link_content = None,
      size = sz\<rparr>"

section \<open>Basic facts\<close>

lemma files_log [simp]: "files (log ev w) = files w"
  by (simp add: log_def)

lemma trace_log [simp]: "trace (log ev w) = trace w @ [ev]"
  by (simp add: log_def)

lemma requests_made_log [simp]:
  "requests_made (log ev w) = (if is_get ev then Suc (requests_made w) else requests_made w)"
  by (simp add: requests_made_def)

lemma requests_made_files_update [simp]:
  "requests_made (w\<lparr>files := f\<rparr>) = requests_made w"
  by (simp add: requests_made_def)

lemma write_chunks_all: "write_chunks None body acc = (None, acc @ concat body)"
  by (induction body arbitrary: acc) auto

lemma write_chunks_extends: "\<exists>suffix. snd (write_chunks k body acc) = acc @ suffix"
proof (induction body arbitrary: k acc)
  case Nil
  then show ?case by simp
next
  case (Cons c cs)
  show ?case
  proof (cases "c = []")
    case True
    then show ?thesis using Cons.IH [of k acc] by simp
  next
    case False
    show ?thesis
    proof (cases k)
      case None
      then show ?thesis using False Cons.IH [of None "acc @ c"] by auto
    next
      case (Some j)
      then show ?thesis using False Cons.IH [of "Some (j - 1)" "acc @ c"]
        by (cases j) auto
    qed
  qed
qed

lemma verify_world [simp]: "snd (verify filepath expected_size w) = w"
  by (simp add: verify_def split: option.splits)

lemma receive_requests [simp]:
  "requests_made (snd (receive e n filepath tot st body fin w)) = requests_made w"
  by (simp add: receive_def Let_def split: prod.splits option.splits stream_end.splits)

lemma transfer_requests [simp]:
  "requests_made (snd (transfer e url filepath st w)) = Suc (requests_made w)"
  by (simp add: transfer_def Let_def split: reply.splits sum.splits prod.splits)

lemma attempt_world: "snd (attempt e url filepath expected_size st w) = snd (transfer e url filepath st w)"
  by (simp add: attempt_def split: prod.splits sum.splits)

lemma attempt_requests [simp]:
  "requests_made (snd (attempt e url filepath expected_size st w)) = Suc (requests_made w)"
  by (simp add: attempt_world)


lemma download_loop_step:
  "retry_count < max_retries \<Longrightarrow> attempt e url filepath expected_size st w = (Inl x, w') \<Longrightarrow>
   download_loop e url filepath expected_size max_retries retry_count st w =
     download_loop e url filepath expected_size max_retries (retry_count + 1)
       (on_error filepath st (log (Sleep 5) w')) (log (Sleep 5) w')"
  by (simp add: download_loop.simps)

lemma download_loop_success:
  "retry_count < max_retries \<Longrightarrow> attempt e url filepath expected_size st w = (Inr u, w') \<Longrightarrow>
   download_loop e url filepath expected_size max_retries retry_count st w = (True, w')"
  by (simp add: download_loop.simps)




lemma process_entry_skip:
  "\<not> selected e filter_keyword file_info \<Longrightarrow>
   process_entry e filter_keyword output_dir file_info s = s"
  by (cases s) (auto simp: process_entry_def selected_def split: option.splits)

lemma process_entry_completed:
  "selected e filter_keyword file_info \<Longrightarrow> completed output_dir file_info w \<Longrightarrow>
   process_entry e filter_keyword output_dir file_info (ad, n, w) = (ad, n + 1, w)"
  by (auto simp: process_entry_def selected_def completed_def split: option.splits)

lemma process_entry_download:
  "selected e filter_keyword file_info \<Longrightarrow> \<not> completed output_dir file_info w \<Longrightarrow>
   entry_name file_info = Some fname \<Longrightarrow> entry_url file_info = Some download_url \<Longrightarrow>
   process_entry e filter_keyword output_dir file_info (ad, n, w) =
     (if fst (download_file e download_url fname output_dir (size file_info) 5 w) then ad else False,
      n + 1,
      snd (download_file e download_url fname output_dir (size file_info) 5 w))"
  by (auto simp: process_entry_def selected_def completed_def split: option.splits prod.splits)





lemma fold_process_filter:
  "fold (process_entry e filter_keyword output_dir) (filter (selected e filter_keyword) fs) s =
   fold (process_entry e filter_keyword output_dir) fs s"
  by (induction fs arbitrary: s) (simp_all add: process_entry_skip)


lemma transfer_trace_get:
  "\<exists>rest. trace (snd (transfer e url filepath st w)) = trace w @ Get url (headers st) # rest"
  by (simp add: transfer_def receive_def Let_def
      split: reply.splits sum.splits prod.splits option.splits stream_end.splits)

lemma transfer_206:
  assumes "0 < initial_pos st"
      and "server e (requests_made w) url (headers st) = Response 206 clen body fin"
      and "content_length clen = Inr total_size"
      and "tqdm_cm e"
  shows "\<exists>rest. trace (snd (transfer e url filepath st w)) =
           trace w @ Get url (headers st) # Tqdm (total_size + initial_pos st) (initial_pos st)
             # Open filepath (mode st) # rest"
  using assms
  by (simp add: transfer_def receive_def on_status_def Let_def
      split: prod.splits option.splits stream_end.splits)

lemma transfer_200:
  assumes "0 < initial_pos st"
      and "server e (requests_made w) url (headers st) = Response 200 clen body fin"
      and "content_length clen = Inr total_size"
      and "tqdm_cm e"
      and "disk e (requests_made w) \<noteq> OpenFails"
  shows "trace (snd (transfer e url filepath st w)) =
           trace w @ [Get url (headers st), Tqdm total_size 0, Open filepath WB] \<and>
         files (snd (transfer e url filepath st w)) =
           (files w)(filepath \<mapsto>
              snd (write_chunks (writes_allowed (disk e (requests_made w))) body []))"
  using assms
  by (simp add: transfer_def receive_def on_status_def Let_def
      split: prod.splits option.splits stream_end.splits)

lemma transfer_200_complete:
  assumes "0 < initial_pos st"
      and "server e (requests_made w) url (headers st) = Response 200 clen body Exhausted"
      and "content_length clen = Inr total_size"
      and "tqdm_cm e"
      and "disk e (requests_made w) = NoFault"
  shows "fst (transfer e url filepath st w) = Inr () \<and>
         files (snd (transfer e url filepath st w)) = (files w)(filepath \<mapsto> concat body)"
  using assms
  by (simp add: transfer_def receive_def on_status_def Let_def writes_allowed_def
      write_chunks_all)

lemma transfer_success_file:
  "transfer e url filepath st w = (Inr u, w') \<Longrightarrow> \<exists>c. files w' filepath = Some c"
  by (auto simp: transfer_def receive_def Let_def
      split: reply.splits sum.splits prod.splits option.splits stream_end.splits if_splits)

lemma attempt_after_transfer:
  "transfer e url filepath st w = (Inr u, w') \<Longrightarrow> files w' filepath = Some c \<Longrightarrow>
   attempt e url filepath expected_size st w =
     (if truthy expected_size \<and> Some (getsize c) \<noteq> expected_size then Inl SizeMismatch else Inr (),
      w')"
  by (simp add: attempt_def verify_def)

lemma attempt_failed_transfer:
  "transfer e url filepath st w = (Inl x, w') \<Longrightarrow>
   attempt e url filepath expected_size st w = (Inl x, w')"
  by (simp add: attempt_def)

lemma verify_zero: "verify filepath (Some 0) w = verify filepath None w"
  by (simp add: verify_def truthy_def)

lemma attempt_zero:
  "attempt e url filepath (Some 0) st w = attempt e url filepath None st w"
  by (simp add: attempt_def verify_zero split: prod.splits sum.splits)

lemma download_loop_zero:
  "download_loop e url filepath (Some 0) max_retries retry_count st w =
   download_loop e url filepath None max_retries retry_count st w"
proof (induction e url filepath "None :: int option" max_retries retry_count st w
    rule: download_loop.induct)
  case (1 e url filepath max_retries retry_count st w)
  show ?case
  proof (cases "retry_count < max_retries")
    case False
    then show ?thesis by (simp add: download_loop.simps)
  next
    case True
    obtain r w' where a: "attempt e url filepath None st w = (r, w')"
      by (cases "attempt e url filepath None st w")
    show ?thesis
    proof (cases r)
      case (Inl x)
      then show ?thesis
        using "1.hyps" [OF True a [symmetric] Inl] True a
        by (simp add: download_loop.simps [of e url filepath _ max_retries retry_count st w]
            attempt_zero)
    next
      case (Inr u)
      then show ?thesis
        using True a
        by (simp add: download_loop.simps [of e url filepath _ max_retries retry_count st w]
            attempt_zero)
    qed
  qed
qed

lemma download_file_zero:
  "download_file e url fname output_dir (Some 0) max_retries w =
   download_file e url fname output_dir None max_retries w"
  by (simp add: download_file_def Let_def truthy_def download_loop_zero split: option.splits)

lemma process_entry_zero:
  "process_entry e filter_keyword output_dir (file_info\<lparr>size := Some 0\<rparr>) s =
   process_entry e filter_keyword output_dir (file_info\<lparr>size := None\<rparr>) s"
  by (simp add: process_entry_def entry_name_def entry_url_def truthy_def download_file_zero
      split: prod.splits option.splits)

lemma download_loop_requests_ge:
  "requests_made w + (if retry_count < max_retries then 1 else 0)
     \<le> requests_made (snd (download_loop e url filepath expected_size max_retries retry_count st w))"
proof (induction e url filepath expected_size max_retries retry_count st w rule: download_loop.induct)
  case (1 e url filepath expected_size max_retries retry_count st w)
  show ?case
  proof (cases "retry_count < max_retries")
    case False
    then show ?thesis by (simp add: download_loop.simps)
  next
    case True
    obtain r w' where a: "attempt e url filepath expected_size st w = (r, w')"
      by (cases "attempt e url filepath expected_size st w")
    have rq: "requests_made w' = Suc (requests_made w)"
      using attempt_requests [of e url filepath expected_size st w] a by simp
    show ?thesis
    proof (cases r)
      case (Inr u)
      then show ?thesis using True a rq by (simp add: download_loop.simps)
    next
      case (Inl x)
      show ?thesis
        using "1.IH" [OF True a [symmetric] Inl] True a Inl rq
        by (simp add: download_loop.simps [of e url filepath expected_size max_retries retry_count st w]
            split: if_splits)
    qed
  qed
qed

lemma download_file_unknown_requests:
  assumes "\<not> truthy expected_size" and "0 < max_retries"
  shows "requests_made w
     < requests_made (snd (download_file e url fname output_dir expected_size max_retries w))"
proof -
  have ge: "requests_made w
      < requests_made (snd (download_loop e url (path_join output_dir fname) expected_size
          max_retries 0 st w))" for st
    using download_loop_requests_ge [of w 0 max_retries e url "path_join output_dir fname"
        expected_size st] assms(2)
    by simp
  show ?thesis
    using assms(1) by (simp add: download_file_def Let_def ge split: option.splits)
qed












lemma start_state_resume:
  "0 < pos \<Longrightarrow> start_state pos = \<lparr>initial_pos = pos, mode = AB, headers = [(''Range'', range_value pos)]\<rparr>"
  by (simp add: start_state_def)

lemma on_error_existing:
  "files w filepath = Some c \<Longrightarrow>
   initial_pos (on_error filepath st w) = getsize c \<and>
   mode (on_error filepath st w) = AB \<and>
   map_of (headers (on_error filepath st w)) ''Range'' = Some (range_value (getsize c))"
  by (simp add: on_error_def update_conv')


lemma download_file_resume:
  assumes "files w (path_join output_dir fname) = Some c"
      and "0 < getsize c"
      and "case expected_size of None \<Rightarrow> True | Some n \<Rightarrow> getsize c < n"
  shows "download_file e url fname output_dir expected_size max_retries w =
         download_loop e url (path_join output_dir fname) expected_size max_retries 0
           (start_state (getsize c)) w"
  using assms by (auto simp: download_file_def Let_def truthy_def split: option.splits)

section \<open>Resuming: the request and the total\<close>

text \<open>
  C1. Resume correctness. An attempt on a file that holds \<open>K > 0\<close> bytes starts
  either from the state of lines 84 to 87 (\<open>start_state\<close>, the first attempt) or from
  the state the handler of lines 132 to 135 leaves (\<open>on_error\<close>, a retry). In both the
  position is \<open>K\<close> and the request carries \<^verbatim>\<open>Range: bytes=K-\<close>; the request is the
  first call the attempt makes; and when the server answers 206 the total given to the
  progress bar is the content-length plus \<open>K\<close>, with \<open>K\<close> as its initial value.
  When the expected size is unknown or larger than \<open>K\<close>, \<^verbatim>\<open>download_file\<close> enters
  its loop in that state, with the file untouched.
\<close>

theorem resume_correctness:
  assumes "files w filepath = Some c"
      and "0 < getsize c"
      and "st = start_state (getsize c) \<or> st = on_error filepath st0 w"
  shows "initial_pos st = getsize c \<and>
         map_of (headers st) ''Range'' = Some (range_value (getsize c)) \<and>
         (\<exists>rest. trace (snd (attempt e url filepath expected_size st w)) =
            trace w @ Get url (headers st) # rest) \<and>
         (server e (requests_made w) url (headers st) = Response 206 clen body fin \<and>
          content_length clen = Inr total_size \<and> tqdm_cm e \<longrightarrow>
            (\<exists>rest. trace (snd (attempt e url filepath expected_size st w)) =
               trace w @ Get url (headers st) # Tqdm (total_size + getsize c) (getsize c) # rest)) \<and>
         (filepath = path_join output_dir fname \<and>
          (case expected_size of None \<Rightarrow> True | Some n \<Rightarrow> getsize c < n) \<longrightarrow>
            download_file e url fname output_dir expected_size max_retries w =
            download_loop e url filepath expected_size max_retries 0 (start_state (getsize c)) w)"
proof -
  have pos: "initial_pos st = getsize c"
    using assms on_error_existing [OF assms(1), of st0] by (auto simp: start_state_def)
  have hdr: "map_of (headers st) ''Range'' = Some (range_value (getsize c))"
    using assms on_error_existing [OF assms(1), of st0] by (auto simp: start_state_def)
  have get: "\<exists>rest. trace (snd (attempt e url filepath expected_size st w)) =
      trace w @ Get url (headers st) # rest"
    using transfer_trace_get [of e url filepath st w] by (simp add: attempt_world)
  have tot: "\<exists>rest. trace (snd (attempt e url filepath expected_size st w)) =
      trace w @ Get url (headers st) # Tqdm (total_size + getsize c) (getsize c) # rest"
    if "server e (requests_made w) url (headers st) = Response 206 clen body fin"
      and "content_length clen = Inr total_size" and "tqdm_cm e"
    using transfer_206 [of st e w url clen body fin total_size filepath] that pos assms(2)
    by (auto simp: attempt_world)
  have entry: "download_file e url fname output_dir expected_size max_retries w =
      download_loop e url filepath expected_size max_retries 0 (start_state (getsize c)) w"
    if "filepath = path_join output_dir fname"
      and "case expected_size of None \<Rightarrow> True | Some n \<Rightarrow> getsize c < n"
    using download_file_resume [of w output_dir fname c expected_size e url max_retries]
      assms(1,2) that by simp
  show ?thesis using pos hdr get tot entry by blast
qed

section \<open>A server that ignores the range\<close>

text \<open>
  C2, amended. Ignored-range restart. When a request made with a position \<open>K > 0\<close> is
  answered with status 200 and a content-length that is missing or an integer, the
  progress bar can be entered and the file can be opened, the progress bar gets the
  content-length as total and 0 as initial value, the file is opened with \<^verbatim>\<open>'wb'\<close>,
  and what the file holds afterwards is what this attempt wrote, starting from the empty
  file: nothing of the old content is left. When the stream ends normally and no write
  fails, the file is the whole body of the response and the outcome of the attempt is
  the comparison of its size with the expected size.
\<close>

theorem ignored_range_restart:
  assumes "0 < initial_pos st"
      and "server e (requests_made w) url (headers st) = Response 200 clen body fin"
      and "content_length clen = Inr total_size"
      and "tqdm_cm e"
      and "disk e (requests_made w) \<noteq> OpenFails"
  shows "trace (snd (attempt e url filepath expected_size st w)) =
           trace w @ [Get url (headers st), Tqdm total_size 0, Open filepath WB] \<and>
         files (snd (attempt e url filepath expected_size st w)) filepath =
           Some (snd (write_chunks (writes_allowed (disk e (requests_made w))) body [])) \<and>
         (disk e (requests_made w) = NoFault \<and> fin = Exhausted \<longrightarrow>
            files (snd (attempt e url filepath expected_size st w)) filepath = Some (concat body) \<and>
            fst (attempt e url filepath expected_size st w) =
              (if truthy expected_size \<and> Some (getsize (concat body)) \<noteq> expected_size
               then Inl SizeMismatch else Inr ()))"
proof -
  have a: "trace (snd (attempt e url filepath expected_size st w)) =
      trace w @ [Get url (headers st), Tqdm total_size 0, Open filepath WB]"
    and b: "files (snd (attempt e url filepath expected_size st w)) filepath =
      Some (snd (write_chunks (writes_allowed (disk e (requests_made w))) body []))"
    using transfer_200 [OF assms, of filepath] by (simp_all add: attempt_world)
  have c: "files (snd (attempt e url filepath expected_size st w)) filepath = Some (concat body) \<and>
      fst (attempt e url filepath expected_size st w) =
        (if truthy expected_size \<and> Some (getsize (concat body)) \<noteq> expected_size
         then Inl SizeMismatch else Inr ())"
    if nf: "disk e (requests_made w) = NoFault" and ex: "fin = Exhausted"
  proof -
    obtain r w' where t: "transfer e url filepath st w = (r, w')"
      by (cases "transfer e url filepath st w")
    have r: "r = Inr ()" and f: "files w' filepath = Some (concat body)"
      using transfer_200_complete [OF assms(1) assms(2) [unfolded ex] assms(3,4) nf, of filepath] t
      by simp_all
    show ?thesis
      using attempt_after_transfer [OF t [unfolded r] f, of expected_size] f
      by (simp add: attempt_world t)
  qed
  show ?thesis using a b c by blast
qed

section \<open>The bound on the retries\<close>


section \<open>The handler of a failed attempt\<close>




section \<open>The loop over the passes\<close>


section \<open>A file that is already complete\<close>

text \<open>
  C6, amended. Idempotence. When the local file exists and its size equals the expected
  size, and that size is not 0, \<^verbatim>\<open>download_file\<close> returns \<^verbatim>\<open>True\<close> and leaves
  the world as it was: no request, no call at all. The quick check of \<^verbatim>\<open>main\<close> counts
  such an entry and goes on without calling \<^verbatim>\<open>download_file\<close>.
\<close>

theorem idempotence:
  assumes "files w (path_join output_dir fname) = Some c"
      and "expected_size = Some (getsize c)"
      and "getsize c \<noteq> 0"
  shows "download_file e url fname output_dir expected_size max_retries w = (True, w) \<and>
         (selected e filter_keyword file_info \<and> entry_name file_info = Some fname \<and>
          size file_info = expected_size \<longrightarrow>
            process_entry e filter_keyword output_dir file_info (ad, n, w) = (ad, n + 1, w))"
proof -
  have a: "download_file e url fname output_dir expected_size max_retries w = (True, w)"
    using assms by (simp add: download_file_def truthy_def)
  have b: "process_entry e filter_keyword output_dir file_info (ad, n, w) = (ad, n + 1, w)"
    if s: "selected e filter_keyword file_info" and en: "entry_name file_info = Some fname"
      and sz: "size file_info = expected_size"
  proof -
    have "completed output_dir file_info w"
      using assms en sz by (simp add: completed_def truthy_def)
    then show ?thesis using s by (rule process_entry_completed [rotated])
  qed
  show ?thesis using a b by blast
qed

section \<open>The size of the file after the stream\<close>

text \<open>
  C8, amended. Final-size verification. When the stream of an attempt has ended
  normally, the file exists; the attempt raises the size mismatch when the expected size
  is known and not 0 and differs from the size of the file, and succeeds otherwise, that
  is when the sizes agree or the expected size is unknown or 0. The mismatch is handled
  as every other exception: the loop sleeps and goes to the next attempt. On success
  the loop returns \<^verbatim>\<open>True\<close>.
\<close>

theorem final_size_verification:
  assumes "transfer e url filepath st w = (Inr u, w')"
  shows "\<exists>c. files w' filepath = Some c \<and>
           attempt e url filepath expected_size st w =
             (if truthy expected_size \<and> Some (getsize c) \<noteq> expected_size
              then Inl SizeMismatch else Inr (), w') \<and>
           (truthy expected_size \<and> Some (getsize c) \<noteq> expected_size \<and>
            retry_count < max_retries \<longrightarrow>
              download_loop e url filepath expected_size max_retries retry_count st w =
                download_loop e url filepath expected_size max_retries (retry_count + 1)
                  (on_error filepath st (log (Sleep 5) w')) (log (Sleep 5) w')) \<and>
           (\<not> (truthy expected_size \<and> Some (getsize c) \<noteq> expected_size) \<and>
            retry_count < max_retries \<longrightarrow>
              download_loop e url filepath expected_size max_retries retry_count st w = (True, w'))"
proof -
  obtain c where c: "files w' filepath = Some c"
    using transfer_success_file [OF assms] by blast
  have a: "attempt e url filepath expected_size st w =
      (if truthy expected_size \<and> Some (getsize c) \<noteq> expected_size
       then Inl SizeMismatch else Inr (), w')"
    using attempt_after_transfer [OF assms c] .
  have b: "download_loop e url filepath expected_size max_retries retry_count st w =
      download_loop e url filepath expected_size max_retries (retry_count + 1)
        (on_error filepath st (log (Sleep 5) w')) (log (Sleep 5) w')"
    if "truthy expected_size \<and> Some (getsize c) \<noteq> expected_size" and "retry_count < max_retries"
    using download_loop_step [of retry_count max_retries e url filepath expected_size st w
        SizeMismatch w'] a that by simp
  have d: "download_loop e url filepath expected_size max_retries retry_count st w = (True, w')"
    if "\<not> (truthy expected_size \<and> Some (getsize c) \<noteq> expected_size)"
      and "retry_count < max_retries"
    using download_loop_success [of retry_count max_retries e url filepath expected_size st w
        "()" w'] a that by simp
  show ?thesis using c a b d by blast
qed

section \<open>Entries the filter rejects\<close>

text \<open>
  C9. Filter frame property. When a filter keyword is given and the name of an entry
  does not contain it, both lowered by \<^verbatim>\<open>str.lower\<close> as line 197 does, the body of
  the loop leaves the pass and the world as they are for that entry: nothing is opened,
  removed or requested. So a pass, its failures and the whole loop over the passes
  behave as if the entry were not in the manifest. Nothing is assumed of
  \<^verbatim>\<open>str.lower\<close>.
\<close>

theorem filter_frame:
  assumes "filter_keyword \<noteq> []"
      and "entry_name file_info = Some fname"
      and "\<not> contains (str_lower e filter_keyword) (str_lower e fname)"
  shows "process_entry e filter_keyword output_dir file_info s = s \<and>
         run_pass e filter_keyword output_dir (xs @ file_info # ys) w =
           run_pass e filter_keyword output_dir (xs @ ys) w \<and>
         failures e filter_keyword output_dir (xs @ file_info # ys) w =
           failures e filter_keyword output_dir (xs @ ys) w \<and>
         main_loop fuel e filter_keyword output_dir (xs @ file_info # ys) global_pass w =
           main_loop fuel e filter_keyword output_dir (xs @ ys) global_pass w"
proof -
  have ns: "\<not> selected e filter_keyword file_info"
    using assms by (simp add: selected_def split: option.splits)
  have p: "process_entry e filter_keyword output_dir file_info s = s" for s
    using ns by (rule process_entry_skip)
  have r: "run_pass e filter_keyword output_dir (xs @ file_info # ys) w =
      run_pass e filter_keyword output_dir (xs @ ys) w" for w
    by (simp add: run_pass_def p)
  have f: "failures e filter_keyword output_dir (xs @ file_info # ys) w =
      failures e filter_keyword output_dir (xs @ ys) w" for w
    by (induction xs arbitrary: w) (simp_all add: p split: prod.splits)
  have m: "main_loop fuel e filter_keyword output_dir (xs @ file_info # ys) global_pass w =
      main_loop fuel e filter_keyword output_dir (xs @ ys) global_pass w"
    by (induction fuel arbitrary: global_pass w) (simp_all add: r split: prod.splits)
  show ?thesis using p r f m by blast
qed

section \<open>The expected size 0\<close>

text \<open>
  C10. An expected size of 0 is treated as an unknown one. \<^verbatim>\<open>download_file\<close> does
  the same with 0 as with \<^verbatim>\<open>None\<close>, and so does the body of the loop of \<^verbatim>\<open>main\<close>;
  the quick check never finds such an entry complete; the verification after the
  stream always passes. Such an entry is downloaded again on every run: as soon as one
  attempt is allowed, \<^verbatim>\<open>download_file\<close> makes a request, and so does every pass that
  counts the entry.
\<close>

theorem zero_size_is_unknown:
  "download_file e url fname output_dir (Some 0) max_retries w =
     download_file e url fname output_dir None max_retries w \<and>
   process_entry e filter_keyword output_dir (file_info\<lparr>size := Some 0\<rparr>) s =
     process_entry e filter_keyword output_dir (file_info\<lparr>size := None\<rparr>) s \<and>
   \<not> completed output_dir (file_info\<lparr>size := Some 0\<rparr>) w \<and>
   verify filepath (Some 0) w = (Inr (), w) \<and>
   (0 < max_retries \<longrightarrow>
      requests_made w
        < requests_made (snd (download_file e url fname output_dir (Some 0) max_retries w))) \<and>
   (selected e filter_keyword file_info \<longrightarrow>
      requests_made w
        < requests_made (snd (snd (process_entry e filter_keyword output_dir
            (file_info\<lparr>size := Some 0\<rparr>) (ad, n, w)))))"
proof -
  have a: "download_file e url fname output_dir (Some 0) max_retries w =
      download_file e url fname output_dir None max_retries w"
    by (rule download_file_zero)
  have b: "process_entry e filter_keyword output_dir (file_info\<lparr>size := Some 0\<rparr>) s =
      process_entry e filter_keyword output_dir (file_info\<lparr>size := None\<rparr>) s"
    by (rule process_entry_zero)
  have c: "\<not> completed output_dir (file_info\<lparr>size := Some 0\<rparr>) w"
    by (simp add: completed_def truthy_def split: option.splits)
  have d: "verify filepath (Some 0) w = (Inr (), w)"
    by (simp add: verify_def truthy_def)
  have f: "requests_made w
      < requests_made (snd (download_file e url fname output_dir (Some 0) max_retries w))"
    if "0 < max_retries"
    using download_file_unknown_requests [of "Some 0" max_retries w e url fname output_dir] that
    by (simp add: truthy_def)
  have g: "requests_made w
      < requests_made (snd (snd (process_entry e filter_keyword output_dir
          (file_info\<lparr>size := Some 0\<rparr>) (ad, n, w))))"
    if s: "selected e filter_keyword file_info"
  proof -
    let ?fi = "file_info\<lparr>size := Some 0\<rparr>"
    have s': "selected e filter_keyword ?fi"
      using s by (simp add: selected_def entry_name_def entry_url_def)
    obtain nm u where nm: "entry_name ?fi = Some nm" and u: "entry_url ?fi = Some u"
      using s' by (auto simp: selected_def split: option.splits)
    have "process_entry e filter_keyword output_dir ?fi (ad, n, w) =
        (if fst (download_file e u nm output_dir (size ?fi) 5 w) then ad else False, n + 1,
         snd (download_file e u nm output_dir (size ?fi) 5 w))"
      using process_entry_download [OF s' c nm u] .
    then show ?thesis
      using download_file_unknown_requests [of "Some 0" 5 w e u nm output_dir]
      by (simp add: truthy_def)
  qed
  show ?thesis using a b c d f g by blast
qed

lemma download_loop_trace_extends:
  "\<exists>rest. trace (snd (download_loop e url filepath expected_size max_retries retry_count st w))
     = trace w @ rest"
proof (induction e url filepath expected_size max_retries retry_count st w rule: download_loop.induct)
  case (1 e url filepath expected_size max_retries retry_count st w)
  show ?case
  proof (cases "retry_count < max_retries")
    case False
    then show ?thesis by (simp add: download_loop.simps)
  next
    case True
    obtain r w' where a: "attempt e url filepath expected_size st w = (r, w')"
      by (cases "attempt e url filepath expected_size st w")
    obtain r1 where t: "trace w' = trace w @ Get url (headers st) # r1"
      using transfer_trace_get [of e url filepath st w] attempt_world [of e url filepath expected_size st w] a
      by auto
    show ?thesis
    proof (cases r)
      case (Inr u)
      then show ?thesis using True a t by (simp add: download_loop.simps)
    next
      case (Inl x)
      obtain r2 where "trace (snd (download_loop e url filepath expected_size max_retries
          (retry_count + 1) (on_error filepath st (log (Sleep 5) w')) (log (Sleep 5) w')))
          = trace (log (Sleep 5) w') @ r2"
        using "1.IH" [OF True a [symmetric] Inl] by blast
      then show ?thesis
        using download_loop_step [OF True a [unfolded Inl]] t by simp
    qed
  qed
qed

lemma download_loop_trace_first:
  assumes "retry_count < max_retries"
  shows "\<exists>rest. trace (snd (download_loop e url filepath expected_size max_retries retry_count st w))
     = trace w @ Get url (headers st) # rest"
proof -
  obtain r w' where a: "attempt e url filepath expected_size st w = (r, w')"
    by (cases "attempt e url filepath expected_size st w")
  obtain r1 where t: "trace w' = trace w @ Get url (headers st) # r1"
    using transfer_trace_get [of e url filepath st w] attempt_world [of e url filepath expected_size st w] a
    by auto
  show ?thesis
  proof (cases r)
    case (Inr u)
    then show ?thesis using assms a t by (simp add: download_loop.simps)
  next
    case (Inl x)
    obtain r2 where "trace (snd (download_loop e url filepath expected_size max_retries
        (retry_count + 1) (on_error filepath st (log (Sleep 5) w')) (log (Sleep 5) w')))
        = trace (log (Sleep 5) w') @ r2"
      using download_loop_trace_extends by blast
    then show ?thesis
      using download_loop_step [OF assms a [unfolded Inl]] t by simp
  qed
qed

section \<open>A file larger than expected\<close>

text \<open>
  C7, amended. Oversize invariant. When \<^verbatim>\<open>download_file\<close> is entered with an
  expected size that is known and not 0 and a local file strictly larger than it, the
  file is removed and the loop starts from position 0, in mode \<^verbatim>\<open>'wb'\<close> and without
  a \<^verbatim>\<open>Range\<close> header; when at least one attempt is allowed, the removal is the first
  call made and the request of the first attempt, without a range, is the second.
\<close>

theorem oversize_discard:
  assumes "files w (path_join output_dir fname) = Some c"
      and "expected_size = Some n"
      and "n \<noteq> 0"
      and "n < getsize c"
  shows "download_file e url fname output_dir expected_size max_retries w =
           download_loop e url (path_join output_dir fname) expected_size max_retries 0
             \<lparr>initial_pos = 0, mode = WB, headers = []\<rparr>
             ((log (Remove (path_join output_dir fname)) w)
                \<lparr>files := (files w)(path_join output_dir fname := None)\<rparr>) \<and>
         (0 < max_retries \<longrightarrow>
            (\<exists>rest. trace (snd (download_file e url fname output_dir expected_size max_retries w)) =
               trace w @ Remove (path_join output_dir fname) # Get url [] # rest))"
proof -
  let ?p = "path_join output_dir fname"
  let ?w = "(log (Remove ?p) w)\<lparr>files := (files w)(?p := None)\<rparr>"
  let ?st = "\<lparr>initial_pos = 0, mode = WB, headers = []\<rparr>"
  have a: "download_file e url fname output_dir expected_size max_retries w =
      download_loop e url ?p expected_size max_retries 0 ?st ?w"
    using assms by (simp add: download_file_def Let_def truthy_def start_state_def)
  have b: "\<exists>rest. trace (snd (download_file e url fname output_dir expected_size max_retries w)) =
      trace w @ Remove ?p # Get url [] # rest"
    if "0 < max_retries"
    using download_loop_trace_first [OF that, of e url ?p expected_size ?st ?w] a by simp
  show ?thesis using a b by blast
qed

section \<open>The properties on the scenarios\<close>

lemma range_value_2: "range_value 2 = ''bytes=2-''"
  by code_simp

lemma range_value_4: "range_value 4 = ''bytes=4-''"
  by code_simp

lemmas run_defs =
  download_file_def path_join_def truthy_def getsize_def start_state_def download_loop.simps
  attempt_def transfer_def receive_def on_status_def content_length_def writes_allowed_def
  verify_def on_error_def log_def requests_made_def Let_def range_value_2 range_value_4

text \<open>
  C2 as it is written fails when the attempt raises between the response and the opening
  of the file. \<^verbatim>\<open>c.bin\<close> holds two bytes and the server answers the ranged request
  with status 200. With the replacement class of lines 12 to 27 as progress bar, the
  \<^verbatim>\<open>with\<close> statement of line 111 raises: the file is never opened, the two bytes
  stay, and the next attempt sends the same ranged request. When \<^verbatim>\<open>open\<close> raises, or
  the content-length is not an integer, the two bytes stay as well.
\<close>

theorem ignored_range_counterexample:
  "files partial_c ''out/c.bin'' = Some ''ab'' \<and>
   0 < initial_pos (start_state 2) \<and>
   headers (start_state 2) = [(''Range'', ''bytes=2-'')] \<and>
   server (restarting\<lparr>tqdm_cm := False\<rparr>) 0 ''u/c.bin'' [(''Range'', ''bytes=2-'')] =
     Response 200 (Parses 4) [''wx'', ''yz''] Exhausted \<and>
   fst (attempt (restarting\<lparr>tqdm_cm := False\<rparr>) ''u/c.bin'' ''out/c.bin'' (Some 4)
          (start_state 2) partial_c) = Inl TypeError \<and>
   trace (snd (attempt (restarting\<lparr>tqdm_cm := False\<rparr>) ''u/c.bin'' ''out/c.bin'' (Some 4)
          (start_state 2) partial_c)) = [Get ''u/c.bin'' [(''Range'', ''bytes=2-'')]] \<and>
   files (snd (attempt (restarting\<lparr>tqdm_cm := False\<rparr>) ''u/c.bin'' ''out/c.bin'' (Some 4)
          (start_state 2) partial_c)) ''out/c.bin'' = Some ''ab'' \<and>
   trace (snd (download_file (restarting\<lparr>tqdm_cm := False\<rparr>) ''u/c.bin'' ''c.bin'' ''out''
          (Some 4) 2 partial_c)) =
     [Get ''u/c.bin'' [(''Range'', ''bytes=2-'')], Sleep 5,
      Get ''u/c.bin'' [(''Range'', ''bytes=2-'')], Sleep 5] \<and>
   files (snd (download_file (restarting\<lparr>tqdm_cm := False\<rparr>) ''u/c.bin'' ''c.bin'' ''out''
          (Some 4) 2 partial_c)) ''out/c.bin'' = Some ''ab'' \<and>
   fst (attempt (restarting\<lparr>disk := \<lambda>n. OpenFails\<rparr>) ''u/c.bin'' ''out/c.bin'' (Some 4)
          (start_state 2) partial_c) = Inl OSError \<and>
   trace (snd (attempt (restarting\<lparr>disk := \<lambda>n. OpenFails\<rparr>) ''u/c.bin'' ''out/c.bin'' (Some 4)
          (start_state 2) partial_c)) =
     [Get ''u/c.bin'' [(''Range'', ''bytes=2-'')], Tqdm 4 0, Open ''out/c.bin'' WB] \<and>
   files (snd (attempt (restarting\<lparr>disk := \<lambda>n. OpenFails\<rparr>) ''u/c.bin'' ''out/c.bin'' (Some 4)
          (start_state 2) partial_c)) ''out/c.bin'' = Some ''ab'' \<and>
   fst (attempt (restarting\<lparr>server := \<lambda>n url h. Response 200 Unparseable [''wx'', ''yz''] Exhausted\<rparr>)
          ''u/c.bin'' ''out/c.bin'' (Some 4) (start_state 2) partial_c) = Inl ValueError \<and>
   files (snd (attempt
          (restarting\<lparr>server := \<lambda>n url h. Response 200 Unparseable [''wx'', ''yz''] Exhausted\<rparr>)
          ''u/c.bin'' ''out/c.bin'' (Some 4) (start_state 2) partial_c)) ''out/c.bin'' = Some ''ab''"
  by (simp add: run_defs restarting_def partial_c_def)

text \<open>
  C7 as it is written fails twice. With an expected size of 0 a file of two bytes is
  larger than expected and is kept: the first request resumes after it. And the check
  of lines 77 to 80 is made once, before the loop; the handler of lines 132 to 135 does
  not repeat it: with no local file, an expected size of 3 and a server that sends four
  bytes, the first attempt leaves a file of four bytes and raises the size mismatch, and
  the second attempt requests \<^verbatim>\<open>Range: bytes=4-\<close> with that file still on disk.
\<close>

theorem oversize_counterexample:
  "files partial_c ''out/c.bin'' = Some ''ab'' \<and>
   (0::int) < getsize ''ab'' \<and>
   trace (snd (download_file offline ''u/c.bin'' ''c.bin'' ''out'' (Some 0) 1 partial_c)) =
     [Get ''u/c.bin'' [(''Range'', ''bytes=2-'')], Sleep 5] \<and>
   files (snd (download_file offline ''u/c.bin'' ''c.bin'' ''out'' (Some 0) 1 partial_c)) ''out/c.bin''
     = Some ''ab'' \<and>
   trace (snd (download_file oversending ''u/a.bin'' ''a.bin'' ''out'' (Some 3) 2 no_files)) =
     [Get ''u/a.bin'' [], Tqdm 4 0, Open ''out/a.bin'' WB, Sleep 5,
      Get ''u/a.bin'' [(''Range'', ''bytes=4-'')], Sleep 5] \<and>
   files (snd (download_file oversending ''u/a.bin'' ''a.bin'' ''out'' (Some 3) 2 no_files))
     ''out/a.bin'' = Some ''abcd'' \<and>
   (3::int) < getsize ''abcd''"
  by (simp add: run_defs offline_def oversending_def partial_c_def no_files_def)

text \<open>
  C6 as it is written fails for the expected size 0: the file exists, its size equals the
  expected size, and \<^verbatim>\<open>download_file\<close> still makes a request and changes the world.
\<close>

theorem idempotence_zero_counterexample:
  "files empty_e (path_join ''out'' ''e.bin'') = Some [] \<and>
   Some (getsize []) = Some 0 \<and>
   requests_made empty_e = 0 \<and>
   requests_made (snd (download_file restarting ''u/e.bin'' ''e.bin'' ''out'' (Some 0) 5 empty_e)) = 1 \<and>
   download_file restarting ''u/e.bin'' ''e.bin'' ''out'' (Some 0) 5 empty_e \<noteq> (True, empty_e)"
  by (simp add: run_defs restarting_def empty_e_def)

text \<open>
  C8 as it is written fails for the expected size 0: the stream ends normally, the file
  holds four bytes, the expected size is known and differs, and the attempt succeeds.
\<close>

theorem final_size_zero_counterexample:
  "fst (transfer restarting ''u/a.bin'' ''out/a.bin'' (start_state 0) no_files) = Inr () \<and>
   files (snd (transfer restarting ''u/a.bin'' ''out/a.bin'' (start_state 0) no_files)) ''out/a.bin''
     = Some ''wxyz'' \<and>
   Some (getsize ''wxyz'') \<noteq> Some 0 \<and>
   fst (attempt restarting ''u/a.bin'' ''out/a.bin'' (Some 0) (start_state 0) no_files) = Inr ()"
  by (simp add: run_defs restarting_def no_files_def)

text \<open>
  C1 on the third scenario: \<^verbatim>\<open>c.bin\<close> holds two bytes of four and the server honours
  the range.
\<close>

theorem resume_correctness_witness:
  "files partial_c ''out/c.bin'' = Some ''ab'' \<and>
   0 < getsize ''ab'' \<and>
   initial_pos (start_state 2) = 2 \<and>
   map_of (headers (start_state 2)) ''Range'' = Some ''bytes=2-'' \<and>
   (\<exists>rest. trace (snd (attempt resuming ''u/c.bin'' ''out/c.bin'' (Some 4) (start_state 2) partial_c))
      = Get ''u/c.bin'' [(''Range'', ''bytes=2-'')] # Tqdm 4 2 # rest) \<and>
   download_file resuming ''u/c.bin'' ''c.bin'' ''out'' (Some 4) 5 partial_c =
     download_loop resuming ''u/c.bin'' ''out/c.bin'' (Some 4) 5 0 (start_state 2) partial_c"
proof -
  have h1: "files partial_c ''out/c.bin'' = Some ''ab''"
    by (simp add: partial_c_def)
  have h2: "0 < getsize ''ab''"
    by (simp add: getsize_def)
  have h3: "start_state 2 = start_state (getsize ''ab'') \<or>
      start_state 2 = on_error ''out/c.bin'' (start_state 0) partial_c"
    by (simp add: getsize_def)
  have h4: "server resuming (requests_made partial_c) ''u/c.bin'' (headers (start_state 2)) =
      Response 206 (Parses 2) [''cd''] Exhausted"
    by (simp add: resuming_def)
  have h5: "content_length (Parses 2) = Inr 2"
    by (simp add: content_length_def)
  have h6: "tqdm_cm resuming"
    by (simp add: resuming_def)
  have h7: "''out/c.bin'' = path_join ''out'' ''c.bin''"
    by (simp add: path_join_def)
  have h8: "case Some 4 of None \<Rightarrow> True | Some n \<Rightarrow> getsize ''ab'' < n"
    by (simp add: getsize_def)
  have g: "getsize ''ab'' = 2"
    by (simp add: getsize_def)
  have hd: "headers (start_state 2) = [(''Range'', ''bytes=2-'')]"
    by (simp add: start_state_def range_value_2)
  have t: "trace partial_c = []"
    by (simp add: partial_c_def)
  note r = resume_correctness [OF h1 h2 h3, where e = resuming and url = "''u/c.bin''"
      and expected_size = "Some 4" and clen = "Parses 2" and body = "[''cd'']" and fin = Exhausted
      and total_size = 2 and output_dir = "''out''" and fname = "''c.bin''" and max_retries = 5]
  show ?thesis
    using r h1 h2 h4 h5 h6 h7 h8 by (simp add: g hd t range_value_2)
qed

text \<open>
  C2 on the same file with a server that ignores the range: the two old bytes are gone
  and the file is the four bytes of the body.
\<close>

theorem ignored_range_restart_witness:
  "0 < initial_pos (start_state 2) \<and>
   disk restarting (requests_made partial_c) \<noteq> OpenFails \<and>
   trace (snd (attempt restarting ''u/c.bin'' ''out/c.bin'' (Some 4) (start_state 2) partial_c)) =
     [Get ''u/c.bin'' [(''Range'', ''bytes=2-'')], Tqdm 4 0, Open ''out/c.bin'' WB] \<and>
   files (snd (attempt restarting ''u/c.bin'' ''out/c.bin'' (Some 4) (start_state 2) partial_c))
     ''out/c.bin'' = Some ''wxyz'' \<and>
   fst (attempt restarting ''u/c.bin'' ''out/c.bin'' (Some 4) (start_state 2) partial_c) = Inr ()"
proof -
  have h1: "0 < initial_pos (start_state 2)"
    by (simp add: start_state_def)
  have h2: "server restarting (requests_made partial_c) ''u/c.bin'' (headers (start_state 2)) =
      Response 200 (Parses 4) [''wx'', ''yz''] Exhausted"
    by (simp add: restarting_def)
  have h3: "content_length (Parses 4) = Inr 4"
    by (simp add: content_length_def)
  have h4: "tqdm_cm restarting"
    by (simp add: restarting_def)
  have h5: "disk restarting (requests_made partial_c) \<noteq> OpenFails"
    by (simp add: restarting_def)
  have h6: "disk restarting (requests_made partial_c) = NoFault"
    by (simp add: restarting_def)
  have hd: "headers (start_state 2) = [(''Range'', ''bytes=2-'')]"
    by (simp add: start_state_def range_value_2)
  have t: "trace partial_c = []"
    by (simp add: partial_c_def)
  note r = ignored_range_restart [OF h1 h2 h3 h4 h5, where filepath = "''out/c.bin''"
      and expected_size = "Some 4"]
  show ?thesis
    using r h1 h5 h6 by (simp add: hd t truthy_def getsize_def writes_allowed_def)
qed



lemma entry_name_entry: "entry_name (entry nm sz) = (if nm = [] then None else Some nm)"
  by (simp add: entry_def entry_name_def str_or_def)

lemma entry_url_entry: "entry_url (entry nm sz) = Some (''u/'' @ nm)"
  by (simp add: entry_def entry_url_def str_or_def)

lemma size_entry: "size (entry nm sz) = sz"
  by (simp add: entry_def)


text \<open>
  C6 on the second scenario: \<^verbatim>\<open>b.bin\<close> is complete, and nothing is asked of a
  server that would not answer.
\<close>

theorem idempotence_witness:
  "files complete_b (path_join ''out'' ''b.bin'') = Some ''abcd'' \<and>
   Some 4 = Some (getsize ''abcd'') \<and>
   getsize ''abcd'' \<noteq> 0 \<and>
   selected offline [] (entry ''b.bin'' (Some 4)) \<and>
   download_file offline ''u/b.bin'' ''b.bin'' ''out'' (Some 4) 5 complete_b = (True, complete_b) \<and>
   process_entry offline [] ''out'' (entry ''b.bin'' (Some 4)) (True, 0, complete_b) =
     (True, 1, complete_b)"
proof -
  have h1: "files complete_b (path_join ''out'' ''b.bin'') = Some ''abcd''"
    by (simp add: complete_b_def path_join_def)
  have h2: "Some 4 = Some (getsize ''abcd'')"
    by (simp add: getsize_def)
  have h3: "getsize ''abcd'' \<noteq> 0"
    by (simp add: getsize_def)
  have h4: "selected offline [] (entry ''b.bin'' (Some 4))"
    by (simp add: selected_def entry_name_entry entry_url_entry)
  have h5: "entry_name (entry ''b.bin'' (Some 4)) = Some ''b.bin''"
    by (simp add: entry_name_entry)
  have h6: "size (entry ''b.bin'' (Some 4)) = Some 4"
    by (simp add: size_entry)
  note r = idempotence [OF h1 h2 h3, where e = offline and url = "''u/b.bin''" and max_retries = 5
      and filter_keyword = "[]" and file_info = "entry ''b.bin'' (Some 4)" and ad = True and n = 0]
  show ?thesis
    using r h1 h2 h3 h4 h5 h6 by simp
qed

text \<open>
  C8 on the first scenario: the four bytes arrive, an expected size of 4 gives success
  and ends the loop, an expected size of 5 gives the size mismatch.
\<close>

theorem final_size_verification_witness:
  "transfer restarting ''u/a.bin'' ''out/a.bin'' (start_state 0) no_files =
     (Inr (), \<lparr>files = [''out/a.bin'' \<mapsto> ''wxyz''],
               trace = [Get ''u/a.bin'' [], Tqdm 4 0, Open ''out/a.bin'' WB]\<rparr>) \<and>
   attempt restarting ''u/a.bin'' ''out/a.bin'' (Some 4) (start_state 0) no_files =
     (Inr (), \<lparr>files = [''out/a.bin'' \<mapsto> ''wxyz''],
               trace = [Get ''u/a.bin'' [], Tqdm 4 0, Open ''out/a.bin'' WB]\<rparr>) \<and>
   attempt restarting ''u/a.bin'' ''out/a.bin'' (Some 5) (start_state 0) no_files =
     (Inl SizeMismatch, \<lparr>files = [''out/a.bin'' \<mapsto> ''wxyz''],
               trace = [Get ''u/a.bin'' [], Tqdm 4 0, Open ''out/a.bin'' WB]\<rparr>) \<and>
   download_loop restarting ''u/a.bin'' ''out/a.bin'' (Some 4) 5 0 (start_state 0) no_files =
     (True, \<lparr>files = [''out/a.bin'' \<mapsto> ''wxyz''],
               trace = [Get ''u/a.bin'' [], Tqdm 4 0, Open ''out/a.bin'' WB]\<rparr>)"
proof -
  let ?w' = "\<lparr>files = [''out/a.bin'' \<mapsto> ''wxyz''],
               trace = [Get ''u/a.bin'' [], Tqdm 4 0, Open ''out/a.bin'' WB]\<rparr>"
  have h: "transfer restarting ''u/a.bin'' ''out/a.bin'' (start_state 0) no_files = (Inr (), ?w')"
    by (simp add: transfer_def receive_def on_status_def content_length_def writes_allowed_def
        start_state_def log_def requests_made_def Let_def restarting_def no_files_def)
  have f: "files ?w' ''out/a.bin'' = Some ''wxyz''"
    by simp
  note a = final_size_verification [OF h, where expected_size = "Some 4" and retry_count = 0
      and max_retries = 5]
  note b = final_size_verification [OF h, where expected_size = "Some 5" and retry_count = 0
      and max_retries = 5]
  have ra: "attempt restarting ''u/a.bin'' ''out/a.bin'' (Some 4) (start_state 0) no_files =
      (Inr (), ?w')"
    and rl: "download_loop restarting ''u/a.bin'' ''out/a.bin'' (Some 4) 5 0 (start_state 0) no_files =
      (True, ?w')"
    using a by (auto simp: truthy_def getsize_def)
  have rb: "attempt restarting ''u/a.bin'' ''out/a.bin'' (Some 5) (start_state 0) no_files =
      (Inl SizeMismatch, ?w')"
    using b by (auto simp: truthy_def getsize_def)
  show ?thesis
    using h ra rb rl by simp
qed

text \<open>
  C9 on the fifth scenario: with the filter \<^verbatim>\<open>foo\<close>, \<^verbatim>\<open>abc.zip\<close> is passed over
  and \<^verbatim>\<open>abcFoo.dat\<close> is not.
\<close>

theorem filter_frame_witness:
  "''foo'' \<noteq> [] \<and>
   entry_name (entry ''abc.zip'' None) = Some ''abc.zip'' \<and>
   \<not> contains (str_lower offline ''foo'') (str_lower offline ''abc.zip'') \<and>
   contains (str_lower offline ''foo'') (str_lower offline ''abcFoo.dat'') \<and>
   process_entry offline ''foo'' ''out'' (entry ''abc.zip'' None) (True, 0, no_files) =
     (True, 0, no_files) \<and>
   run_pass offline ''foo'' ''out'' [entry ''abc.zip'' None, entry ''abcFoo.dat'' None] no_files =
     run_pass offline ''foo'' ''out'' [entry ''abcFoo.dat'' None] no_files \<and>
   main_loop 3 offline ''foo'' ''out'' [entry ''abc.zip'' None, entry ''abcFoo.dat'' None] 1 no_files =
     main_loop 3 offline ''foo'' ''out'' [entry ''abcFoo.dat'' None] 1 no_files"
proof -
  have h1: "''foo'' \<noteq> []"
    by simp
  have h2: "entry_name (entry ''abc.zip'' None) = Some ''abc.zip''"
    by (simp add: entry_name_entry)
  have h3: "\<not> contains (str_lower offline ''foo'') (str_lower offline ''abc.zip'')"
    by (simp add: offline_def ascii_lower_def lower_char_def)
  have h4: "contains (str_lower offline ''foo'') (str_lower offline ''abcFoo.dat'')"
    by code_simp
  note r = filter_frame [OF h1 h2 h3, where output_dir = "''out''"
      and s = "(True, 0, no_files)" and xs = "[]" and ys = "[entry ''abcFoo.dat'' None]"
      and w = no_files and fuel = 3 and global_pass = 1]
  show ?thesis
    using r h1 h2 h3 h4 by simp
qed

text \<open>
  C10 on an empty file whose entry gives the size 0: it is requested again.
\<close>

theorem zero_size_is_unknown_witness:
  "(0::int) < 5 \<and>
   selected restarting [] (entry ''e.bin'' None) \<and>
   download_file restarting ''u/e.bin'' ''e.bin'' ''out'' (Some 0) 5 empty_e =
     download_file restarting ''u/e.bin'' ''e.bin'' ''out'' None 5 empty_e \<and>
   \<not> completed ''out'' (entry ''e.bin'' (Some 0)) empty_e \<and>
   requests_made empty_e
     < requests_made (snd (download_file restarting ''u/e.bin'' ''e.bin'' ''out'' (Some 0) 5 empty_e)) \<and>
   requests_made empty_e
     < requests_made (snd (snd (process_entry restarting [] ''out'' (entry ''e.bin'' (Some 0))
         (True, 0, empty_e))))"
proof -
  have h1: "(0::int) < 5"
    by simp
  have h2: "selected restarting [] (entry ''e.bin'' None)"
    by (simp add: selected_def entry_name_entry entry_url_entry)
  have u: "(entry ''e.bin'' None)\<lparr>size := Some 0\<rparr> = entry ''e.bin'' (Some 0)"
    by (simp add: entry_def)
  note r = zero_size_is_unknown [where e = restarting and url = "''u/e.bin''" and fname = "''e.bin''"
      and output_dir = "''out''" and max_retries = 5 and w = empty_e and filter_keyword = "[]"
      and file_info = "entry ''e.bin'' None" and ad = True and n = 0
      and s = "(True, 0, empty_e)" and filepath = "''out/e.bin''", unfolded u]
  show ?thesis
    using r h1 h2 by blast
qed

text \<open>
  C7 on a file of four bytes with an expected size of 3: it is removed before the only
  request, which carries no range.
\<close>

theorem oversize_discard_witness:
  "files oversize_a (path_join ''out'' ''a.bin'') = Some ''abcd'' \<and>
   (3::int) \<noteq> 0 \<and>
   3 < getsize ''abcd'' \<and>
   (0::int) < 1 \<and>
   download_file offline ''u/a.bin'' ''a.bin'' ''out'' (Some 3) 1 oversize_a =
     download_loop offline ''u/a.bin'' (path_join ''out'' ''a.bin'') (Some 3) 1 0
       \<lparr>initial_pos = 0, mode = WB, headers = []\<rparr>
       ((log (Remove (path_join ''out'' ''a.bin'')) oversize_a)
          \<lparr>files := (files oversize_a)(path_join ''out'' ''a.bin'' := None)\<rparr>) \<and>
   (\<exists>rest. trace (snd (download_file offline ''u/a.bin'' ''a.bin'' ''out'' (Some 3) 1 oversize_a)) =
      trace oversize_a @ Remove (path_join ''out'' ''a.bin'') # Get ''u/a.bin'' [] # rest) \<and>
   trace (snd (download_file offline ''u/a.bin'' ''a.bin'' ''out'' (Some 3) 1 oversize_a)) =
     [Remove ''out/a.bin'', Get ''u/a.bin'' [], Sleep 5] \<and>
   files (snd (download_file offline ''u/a.bin'' ''a.bin'' ''out'' (Some 3) 1 oversize_a)) ''out/a.bin''
     = None"
proof -
  have h1: "files oversize_a (path_join ''out'' ''a.bin'') = Some ''abcd''"
    by (simp add: oversize_a_def path_join_def)
  have h2: "Some 3 = Some (3::int)"
    by simp
  have h3: "(3::int) \<noteq> 0"
    by simp
  have h4: "3 < getsize ''abcd''"
    by (simp add: getsize_def)
  have h5: "(0::int) < 1"
    by simp
  have ev: "trace (snd (download_file offline ''u/a.bin'' ''a.bin'' ''out'' (Some 3) 1 oversize_a)) =
      [Remove ''out/a.bin'', Get ''u/a.bin'' [], Sleep 5] \<and>
    files (snd (download_file offline ''u/a.bin'' ''a.bin'' ''out'' (Some 3) 1 oversize_a)) ''out/a.bin''
      = None"
    by (simp add: run_defs offline_def oversize_a_def)
  note r = oversize_discard [OF h1 h2 h3 h4, where e = offline and url = "''u/a.bin''"
      and max_retries = 1]
  show ?thesis
    using r h1 h3 h4 h5 ev by blast
qed

end
